theory Spec2Isabelle
  imports Main
begin

section \<open>Python values used by generate\_track\_data.py\<close>

text \<open>
  Strings are lists of characters, one \<^typ>\<open>char\<close> per code point below 256.
  \<open>py_isspace\<close> is \<open>str.isspace\<close> on those code points, \<open>py_strip\<close> is
  \<open>str.strip()\<close> and \<open>split_on\<close> is \<open>str.split(sep)\<close> for a one-character
  separator (it never returns the empty list).
\<close>

abbreviation nl :: char where
  "nl \<equiv> CHR 0x0A"

definition py_isspace :: "char \<Rightarrow> bool" where
  "py_isspace c =
     (c \<in> set [CHR 0x09, CHR 0x0A, CHR 0x0B, CHR 0x0C, CHR 0x0D, CHR 0x1C, CHR 0x1D,
                CHR 0x1E, CHR 0x1F, CHR 0x20, CHR 0x85, CHR 0xA0])"

definition py_strip :: "string \<Rightarrow> string" where
  "py_strip s = rev (dropWhile py_isspace (rev (dropWhile py_isspace s)))"

fun split_on :: "char \<Rightarrow> string \<Rightarrow> string list" where
  "split_on sep [] = [[]]"
| "split_on sep (c # cs) =
     (if c = sep then [] # split_on sep cs
      else (case split_on sep cs of
              [] \<Rightarrow> [[c]]
            | w # ws \<Rightarrow> (c # w) # ws))"

text \<open>\<open>str(n)\<close> for a natural number, as the f-strings print counts and status codes.\<close>

definition digit_char :: "nat \<Rightarrow> char" where
  "digit_char d = ''0123456789'' ! (d mod 10)"

fun string_of_nat :: "nat \<Rightarrow> string" where
  "string_of_nat n =
     (if n < 10 then [digit_char n] else string_of_nat (n div 10) @ [digit_char n])"

declare string_of_nat.simps [simp del]

text \<open>
  \<open>int(s)\<close> on a string. Whitespace around the number is dropped (the characters
  \<open>int\<close> takes for whitespace: not 0x1C to 0x1F, which \<open>str.strip\<close> does drop), one
  sign is allowed, and the rest is groups of decimal digits joined by single
  underscores. \<open>cap\<close> is the interpreter's limit on the number of digits
  (\<open>sys.get_int_max_str_digits()\<close>: 4300 by default where the limit exists, 0 for no
  limit); leading zeros count, signs and underscores do not. \<open>None\<close> is \<open>ValueError\<close>.
\<close>

definition int_isspace :: "char \<Rightarrow> bool" where
  "int_isspace c =
     (c \<in> set [CHR 0x09, CHR 0x0A, CHR 0x0B, CHR 0x0C, CHR 0x0D, CHR 0x20, CHR 0x85, CHR 0xA0])"

definition int_strip :: "string \<Rightarrow> string" where
  "int_strip s = rev (dropWhile int_isspace (rev (dropWhile int_isspace s)))"

definition is_digit :: "char \<Rightarrow> bool" where
  "is_digit c = (c \<in> set ''0123456789'')"

definition digit_val :: "char \<Rightarrow> nat" where
  "digit_val c = of_char c - 48"

definition decimal :: "string \<Rightarrow> nat" where
  "decimal ds = foldl (\<lambda>acc c. 10 * acc + digit_val c) 0 ds"

definition int_body :: "nat \<Rightarrow> string \<Rightarrow> nat option" where
  "int_body cap b =
     (let groups = split_on (CHR ''_'') b
      in if list_all (\<lambda>g. g \<noteq> [] \<and> list_all is_digit g) groups
            \<and> (cap = 0 \<or> length (concat groups) \<le> cap)
         then Some (decimal (concat groups)) else None)"

definition py_int :: "nat \<Rightarrow> string \<Rightarrow> int option" where
  "py_int cap s =
     (case int_strip s of
        [] \<Rightarrow> None
      | c # cs \<Rightarrow>
          if c = CHR ''-'' then map_option (\<lambda>n. - int n) (int_body cap cs)
          else if c = CHR ''+'' then map_option int (int_body cap cs)
          else map_option int (int_body cap (c # cs)))"

text \<open>
  A \<open>dict\<close> is the list of its items in insertion order. Assigning to a key that is
  present keeps its place; a new key goes to the end. \<open>dict_get d k dflt\<close> is
  \<open>d.get(k, dflt)\<close>.
\<close>

type_synonym ('k, 'v) pydict = "('k \<times> 'v) list"

definition dict_set :: "('k, 'v) pydict \<Rightarrow> 'k \<Rightarrow> 'v \<Rightarrow> ('k, 'v) pydict" where
  "dict_set d k v =
     (if k \<in> fst ` set d then map (\<lambda>(k', v'). if k' = k then (k', v) else (k', v')) d
      else d @ [(k, v)])"

definition dict_get :: "('k, 'v) pydict \<Rightarrow> 'k \<Rightarrow> 'v \<Rightarrow> 'v" where
  "dict_get d k dflt = (case map_of d k of None \<Rightarrow> dflt | Some v \<Rightarrow> v)"

text \<open>\<open>dict(items)\<close>: the items are assigned one after the other.\<close>

definition dict_of :: "('k \<times> 'v) list \<Rightarrow> ('k, 'v) pydict" where
  "dict_of items = foldl (\<lambda>d (k, v). dict_set d k v) [] items"

text \<open>
  The exceptions that occur. \<open>UnicodeDecodeError\<close> is a subclass of \<open>ValueError\<close>,
  \<open>TemplateError\<close> is what jinja2 raises, and \<open>SystemExit\<close> carries the status of
  \<open>sys.exit\<close>.
\<close>

datatype py_exn =
    RequestException string
  | ValueError
  | UnicodeDecodeError
  | KeyError
  | AttributeError
  | TypeError
  | IndexError
  | OSError
  | TemplateError
  | SystemExit nat

text \<open>
  A value as \<open>json.loads\<close> returns it: \<open>None\<close>, a bool, an int, a float, a string, a
  list, or a dict with string keys. A finite float is sign, mantissa and binary exponent;
  it is zero when the mantissa is.
\<close>

datatype pyfloat = Finite bool nat int | Infinity bool | NaN

datatype json =
    JNull
  | JBool bool
  | JInt int
  | JFloat pyfloat
  | JStr string
  | JArr "json list"
  | JObj "(string \<times> json) list"

text \<open>Truthiness: what \<open>if x\<close> and \<open>x or y\<close> test.\<close>

fun json_truthy :: "json \<Rightarrow> bool" where
  "json_truthy JNull = False"
| "json_truthy (JBool b) = b"
| "json_truthy (JInt i) = (i \<noteq> 0)"
| "json_truthy (JFloat (Finite sign m e)) = (m \<noteq> 0)"
| "json_truthy (JFloat f) = True"
| "json_truthy (JStr s) = (s \<noteq> [])"
| "json_truthy (JArr xs) = (xs \<noteq> [])"
| "json_truthy (JObj kvs) = (kvs \<noteq> [])"

text \<open>
  \<open>x.get(key, dflt)\<close>, \<open>len(x)\<close> and \<open>x[0]\<close> on such a value. Only a dict has
  \<open>get\<close>; only strings, lists and dicts have a length; a dict with string keys has no
  key \<open>0\<close>; numbers, bools and \<open>None\<close> cannot be subscripted.
\<close>

fun py_get :: "json \<Rightarrow> string \<Rightarrow> json \<Rightarrow> py_exn + json" where
  "py_get (JObj kvs) key dflt = Inr (dict_get kvs key dflt)"
| "py_get x key dflt = Inl AttributeError"

fun py_len :: "json \<Rightarrow> py_exn + nat" where
  "py_len (JStr s) = Inr (length s)"
| "py_len (JArr xs) = Inr (length xs)"
| "py_len (JObj kvs) = Inr (length kvs)"
| "py_len x = Inl TypeError"

fun py_item0 :: "json \<Rightarrow> py_exn + json" where
  "py_item0 (JArr (x # xs)) = Inr x"
| "py_item0 (JArr []) = Inl IndexError"
| "py_item0 (JStr (c # cs)) = Inr (JStr [c])"
| "py_item0 (JStr []) = Inl IndexError"
| "py_item0 (JObj kvs) = Inl KeyError"
| "py_item0 x = Inl TypeError"

text \<open>Truthiness of the \<open>str | None\<close> that \<open>get_existing_build\<close> returns.\<close>

fun truthy :: "string option \<Rightarrow> bool" where
  "truthy None = False"
| "truthy (Some s) = (s \<noteq> [])"

fun py_format :: "string option \<Rightarrow> string" where
  "py_format None = ''None''"
| "py_format (Some s) = s"

text \<open>\<open>existing_build != current_build\<close>, a \<open>str | None\<close> against a parsed value.\<close>

fun differs :: "string option \<Rightarrow> json \<Rightarrow> bool" where
  "differs None c = (c \<noteq> JNull)"
| "differs (Some e) c = (c \<noteq> JStr e)"

text \<open>
  Text files. Reading in text mode turns \<open>CR LF\<close> and a lone \<open>CR\<close> into \<open>LF\<close>;
  writing turns \<open>LF\<close> into the platform's line separator.
\<close>

abbreviation cr :: char where
  "cr \<equiv> CHR 0x0D"

fun universal_newlines :: "string \<Rightarrow> string" where
  "universal_newlines [] = []"
| "universal_newlines [c] = (if c = cr then [nl] else [c])"
| "universal_newlines (c # d # cs) =
     (if c = cr then (if d = nl then nl # universal_newlines cs
                      else nl # universal_newlines (d # cs))
      else c # universal_newlines (d # cs))"

datatype platform = Posix | Windows

fun os_linesep :: "platform \<Rightarrow> string" where
  "os_linesep Posix = [nl]"
| "os_linesep Windows = [cr, nl]"

definition to_disk :: "platform \<Rightarrow> string \<Rightarrow> string" where
  "to_disk p text = concat (map (\<lambda>c. if c = nl then os_linesep p else [c]) text)"

section \<open>The world a run sees\<close>

text \<open>A row of a table is a \<open>dict\<close> from column name to value.\<close>

type_synonym row = "(string, string) pydict"

text \<open>
  The fields of a \<open>requests.Response\<close> the script reads. \<open>json\<close> is what
  \<open>response.json()\<close> returns, \<open>None\<close> when the body is not JSON (a \<open>ValueError\<close>).
\<close>

record response =
  status_code :: nat
  http_reason :: string
  resp_url :: string
  resp_text :: string
  json :: "json option"

datatype http_outcome = Failed string | Response response

text \<open>
  The previous \<open>TrackData.lua\<close>: not there; there, but reading it fails with an
  \<open>OSError\<close>; there, but its bytes do not decode; or there with the characters it
  holds.
\<close>

datatype file_state = Absent | Unreadable | Undecodable | Text string

text \<open>What \<open>argparse\<close> makes of the command line.\<close>

datatype cli = Namespace bool | Usage_error | Help

text \<open>
  The template file is not part of the repository's sources. It is absent; or present
  but jinja2 fails on it; or present, and then the world gives the function it renders,
  from the sorted mapping and the build version to the text written.
\<close>

datatype template_state =
    No_template
  | Broken_template
  | Template "(int, string) pydict \<Rightarrow> json \<Rightarrow> string"

text \<open>
  \<open>http n url\<close> is the outcome of the \<open>n\<close>-th GET of the run (counting from 0).
  \<open>writable\<close> says whether writing the output file succeeds; if not, it raises an
  \<open>OSError\<close>, which nothing catches. \<open>os\<close> is the platform, for its line separator.
  \<open>int_max_str_digits\<close> is the interpreter's limit on the digits \<open>int\<close> converts.
  \<open>py_repr\<close> is \<open>str\<close> on the values that are neither a string nor \<open>None\<close>.
\<close>

record world =
  argv :: cli
  artifact :: file_state
  http :: "nat \<Rightarrow> string \<Rightarrow> http_outcome"
  template :: template_state
  writable :: bool
  os :: platform
  int_max_str_digits :: nat
  py_repr :: "json \<Rightarrow> string"
  output_path :: string
  template_path :: string

definition py_str :: "world \<Rightarrow> json \<Rightarrow> string" where
  "py_str w v = (case v of JStr s \<Rightarrow> s | JNull \<Rightarrow> ''None'' | _ \<Rightarrow> py_repr w v)"

text \<open>
  What a run has done so far: the URLs requested, in order; how often the previous
  artifact was read; the lines printed; the characters the output file holds after the
  run wrote it.
\<close>

record run =
  requests :: "string list"
  reads :: nat
  stdout :: "string list"
  written :: "string option"

definition run0 :: run where
  "run0 = \<lparr>requests = [], reads = 0, stdout = [], written = None\<rparr>"

definition print :: "string \<Rightarrow> run \<Rightarrow> run" where
  "print line s = s\<lparr>stdout := stdout s @ [line]\<rparr>"

definition requests_get :: "world \<Rightarrow> string \<Rightarrow> run \<Rightarrow> (py_exn + response) \<times> run" where
  "requests_get w url s =
     (let s' = s\<lparr>requests := requests s @ [url]\<rparr>
      in case http w (length (requests s)) url of
           Failed msg \<Rightarrow> (Inl (RequestException msg), s')
         | Response r \<Rightarrow> (Inr r, s'))"

definition raise_for_status :: "response \<Rightarrow> py_exn + unit" where
  "raise_for_status r =
     (if 400 \<le> status_code r \<and> status_code r < 500
      then Inl (RequestException (string_of_nat (status_code r) @ '' Client Error: ''
                  @ http_reason r @ '' for url: '' @ resp_url r))
      else if 500 \<le> status_code r \<and> status_code r < 600
      then Inl (RequestException (string_of_nat (status_code r) @ '' Server Error: ''
                  @ http_reason r @ '' for url: '' @ resp_url r))
      else Inr ())"

section \<open>The script\<close>

definition WAGO_BASE :: string where
  "WAGO_BASE = ''https://wago.tools/db2''"

definition BUILDS_URL :: string where
  "BUILDS_URL = ''https://wago.tools/api/builds''"

definition TRACK_NAMES :: "(int, string) pydict" where
  "TRACK_NAMES =
     [(1, ''explorer''), (2, ''adventurer''), (3, ''veteran''),
      (4, ''champion''), (5, ''hero''), (6, ''myth'')]"

subsection \<open>fetch\_current\_build\<close>

text \<open>
  Lines 53 to 55: the walk from the parsed listing to the version of the first retail
  build. \<open>Inr None\<close> is falling out of the \<open>if\<close>.
\<close>

definition latest_version :: "json \<Rightarrow> py_exn + json option" where
  "latest_version builds =
     (case py_get builds ''wow'' (JArr []) of
        Inl e \<Rightarrow> Inl e
      | Inr wow_builds \<Rightarrow>
          if \<not> json_truthy wow_builds then Inr None
          else (case py_len wow_builds of
                  Inl e \<Rightarrow> Inl e
                | Inr n \<Rightarrow>
                    if 0 < n
                    then (case py_item0 wow_builds of
                            Inl e \<Rightarrow> Inl e
                          | Inr first \<Rightarrow>
                              (case py_get first ''version'' (JStr '''') of
                                 Inl e \<Rightarrow> Inl e
                               | Inr v \<Rightarrow> Inr (Some v)))
                    else Inr None))"

text \<open>
  The \<open>except\<close> clause names \<open>RequestException\<close>, \<open>ValueError\<close> (with its subclasses),
  \<open>KeyError\<close> and \<open>AttributeError\<close>. After any of them the function returns \<open>None\<close>;
  every other exception leaves it. The value returned is \<open>JNull\<close> for \<open>None\<close>.
\<close>

fun caught_by_fetch :: "py_exn \<Rightarrow> bool" where
  "caught_by_fetch (RequestException msg) = True"
| "caught_by_fetch ValueError = True"
| "caught_by_fetch UnicodeDecodeError = True"
| "caught_by_fetch KeyError = True"
| "caught_by_fetch AttributeError = True"
| "caught_by_fetch e = False"

definition fetch_current_build :: "world \<Rightarrow> run \<Rightarrow> (py_exn + json) \<times> run" where
  "fetch_current_build w s =
     (let handler = (\<lambda>e s'. if caught_by_fetch e then (Inr JNull, s') else (Inl e, s'))
      in case requests_get w BUILDS_URL s of
           (Inl e, s') \<Rightarrow> handler e s'
         | (Inr r, s') \<Rightarrow>
             (case raise_for_status r of
                Inl e \<Rightarrow> handler e s'
              | Inr u \<Rightarrow>
                  (case json r of
                     None \<Rightarrow> handler ValueError s'
                   | Some builds \<Rightarrow>
                       (case latest_version builds of
                          Inl e \<Rightarrow> handler e s'
                        | Inr None \<Rightarrow> (Inr JNull, s')
                        | Inr (Some v) \<Rightarrow> (Inr v, s')))))"

subsection \<open>get\_existing\_build\<close>

text \<open>
  \<open>re.search(r"^-- Build: (.+)$", content, re.MULTILINE)\<close>, position by position.
  \<open>match_at\<close> tries the pattern at a position where \<open>^\<close> holds: the literal prefix,
  then \<open>.+\<close>, which is greedy and takes every character up to the next newline, where
  \<open>$\<close> holds; it needs at least one. \<open>re_search_build bol s\<close> scans \<open>s\<close> from the
  left; \<open>bol\<close> says whether \<open>^\<close> holds at its start. The result is group 1.
\<close>

definition match_at :: "string \<Rightarrow> string option" where
  "match_at s =
     (if take 10 s = ''-- Build: ''
      then (let g = takeWhile (\<lambda>c. c \<noteq> nl) (drop 10 s)
            in if g = [] then None else Some g)
      else None)"

fun re_search_build :: "bool \<Rightarrow> string \<Rightarrow> string option" where
  "re_search_build bol [] = None"
| "re_search_build bol (c # cs) =
     (case (if bol then match_at (c # cs) else None) of
        Some g \<Rightarrow> Some g
      | None \<Rightarrow> re_search_build (c = nl) cs)"

text \<open>
  The \<open>except\<close> clause names \<open>OSError\<close> only: a file whose bytes do not decode makes
  \<open>read_text\<close> raise \<open>UnicodeDecodeError\<close>, which leaves the function.
\<close>

definition get_existing_build :: "world \<Rightarrow> run \<Rightarrow> (py_exn + string option) \<times> run" where
  "get_existing_build w s =
     (case artifact w of
        Absent \<Rightarrow> (Inr None, s)
      | Unreadable \<Rightarrow> (Inr None, s\<lparr>reads := Suc (reads s)\<rparr>)
      | Undecodable \<Rightarrow> (Inl UnicodeDecodeError, s\<lparr>reads := Suc (reads s)\<rparr>)
      | Text on_disk \<Rightarrow>
          (case re_search_build True (universal_newlines on_disk) of
             Some g \<Rightarrow> (Inr (Some (py_strip g)), s\<lparr>reads := Suc (reads s)\<rparr>)
           | None \<Rightarrow> (Inr None, s\<lparr>reads := Suc (reads s)\<rparr>)))"

subsection \<open>should\_regenerate\<close>

definition should_regenerate ::
  "world \<Rightarrow> bool \<Rightarrow> run \<Rightarrow> (py_exn + bool \<times> string) \<times> run" where
  "should_regenerate w force s =
     (if force then (Inr (True, ''forced regeneration''), s)
      else if artifact w = Absent then (Inr (True, ''TrackData.lua does not exist''), s)
      else
        (case get_existing_build w s of
           (Inl e, s1) \<Rightarrow> (Inl e, s1)
         | (Inr existing_build, s1) \<Rightarrow>
             if \<not> truthy existing_build
             then (Inr (True, ''could not determine existing build version''), s1)
             else
               (case fetch_current_build w s1 of
                  (Inl e, s2) \<Rightarrow> (Inl e, s2)
                | (Inr current_build, s2) \<Rightarrow>
                    if \<not> json_truthy current_build
                    then (Inr (False, ''could not fetch current build''),
                          print ''Warning: Could not fetch current build version, skipping regeneration'' s2)
                    else if differs existing_build current_build
                    then (Inr (True, ''build changed: '' @ py_format existing_build @ '' -> ''
                                       @ py_str w current_build), s2)
                    else (Inr (False, ''already up to date (build ''
                                        @ py_format existing_build @ '')''), s2))))"

subsection \<open>fetch\_db2\_table\<close>

text \<open>
  The inner loop over \<open>enumerate(headers)\<close>: \<open>i\<close> is the index of the first header
  left.
\<close>

fun fill_row :: "string list \<Rightarrow> nat \<Rightarrow> string list \<Rightarrow> row \<Rightarrow> row" where
  "fill_row [] i vals r = r"
| "fill_row (header # hs) i vals r =
     fill_row hs (Suc i) vals
       (if i < length vals then dict_set r (py_strip header) (py_strip (vals ! i)) else r)"

text \<open>The loop over \<open>lines[1:]\<close>, with the list \<open>rows\<close> built so far.\<close>

fun scan_lines :: "string list \<Rightarrow> string list \<Rightarrow> row list \<Rightarrow> row list" where
  "scan_lines headers [] rows = rows"
| "scan_lines headers (line # ls) rows =
     (if py_strip line = [] then scan_lines headers ls rows
      else scan_lines headers ls
             (rows @ [fill_row headers 0 (split_on (CHR '','') line) []]))"

definition parse_csv :: "string \<Rightarrow> row list" where
  "parse_csv body =
     (let lines = split_on nl (py_strip body)
      in if length lines < 2 then []
         else scan_lines (split_on (CHR '','') (hd lines)) (tl lines) [])"

text \<open>
  The \<open>except\<close> clause catches \<open>requests.RequestException\<close> and nothing else; any
  other exception would leave the function (\<open>Inl\<close>).
\<close>

definition fetch_db2_table :: "world \<Rightarrow> string \<Rightarrow> run \<Rightarrow> (py_exn + row list) \<times> run" where
  "fetch_db2_table w table_name s =
     (let url = WAGO_BASE @ ''/'' @ table_name @ ''/csv'';
          s1 = print (''Fetching '' @ table_name @ ''...'') s;
          handler = (\<lambda>e s'. case e of
                       RequestException msg \<Rightarrow>
                         (Inr [], print (''Error fetching '' @ table_name @ '': '' @ msg) s')
                     | _ \<Rightarrow> (Inl e, s'))
      in case requests_get w url s1 of
           (Inl e, s2) \<Rightarrow> handler e s2
         | (Inr r, s2) \<Rightarrow>
             (case raise_for_status r of
                Inl e \<Rightarrow> handler e s2
              | Inr u \<Rightarrow> (Inr (parse_csv (resp_text r)), s2)))"

subsection \<open>build\_track\_mapping\<close>

text \<open>
  The three loops of the function, each with the dict it fills. \<open>cap\<close> is the
  interpreter's limit on the digits \<open>int\<close> converts.
\<close>

fun scan_track_rows :: "nat \<Rightarrow> row list \<Rightarrow> (int, int) pydict \<Rightarrow> (int, int) pydict" where
  "scan_track_rows cap [] group_to_track = group_to_track"
| "scan_track_rows cap (r # rs) group_to_track =
     (let group_id = dict_get r ''ItemBonusListGroupID'' '''';
          track_num = dict_get r ''Field_10_1_0_48898_002'' ''''
      in if group_id \<noteq> [] \<and> track_num \<noteq> []
         then (case py_int cap group_id of
                 None \<Rightarrow> scan_track_rows cap rs group_to_track
               | Some gid \<Rightarrow>
                   (case py_int cap track_num of
                      None \<Rightarrow> scan_track_rows cap rs group_to_track
                    | Some tnum \<Rightarrow>
                        if tnum \<in> fst ` set TRACK_NAMES
                        then scan_track_rows cap rs (dict_set group_to_track gid tnum)
                        else scan_track_rows cap rs group_to_track))
         else scan_track_rows cap rs group_to_track)"

fun scan_bonus_rows :: "nat \<Rightarrow> row list \<Rightarrow> (int, int list) pydict \<Rightarrow> (int, int list) pydict" where
  "scan_bonus_rows cap [] group_to_bonuses = group_to_bonuses"
| "scan_bonus_rows cap (r # rs) group_to_bonuses =
     (let group_id = dict_get r ''ItemBonusListGroupID'' '''';
          bonus_id = dict_get r ''ItemBonusListID'' ''''
      in if group_id \<noteq> [] \<and> bonus_id \<noteq> []
         then (case py_int cap group_id of
                 None \<Rightarrow> scan_bonus_rows cap rs group_to_bonuses
               | Some gid \<Rightarrow>
                   (case py_int cap bonus_id of
                      None \<Rightarrow> scan_bonus_rows cap rs group_to_bonuses
                    | Some bid \<Rightarrow>
                        (let d = (if gid \<notin> fst ` set group_to_bonuses
                                  then dict_set group_to_bonuses gid []
                                  else group_to_bonuses)
                         in scan_bonus_rows cap rs (dict_set d gid (dict_get d gid [] @ [bid])))))
         else scan_bonus_rows cap rs group_to_bonuses)"

fun record_bonuses :: "int list \<Rightarrow> string \<Rightarrow> (int, string) pydict \<Rightarrow> (int, string) pydict" where
  "record_bonuses [] track_name bonus_to_track = bonus_to_track"
| "record_bonuses (bonus_id # bs) track_name bonus_to_track =
     record_bonuses bs track_name (dict_set bonus_to_track bonus_id track_name)"

fun join_tracks ::
  "(int, int) pydict \<Rightarrow> (int, int list) pydict \<Rightarrow> (int, string) pydict \<Rightarrow> (int, string) pydict" where
  "join_tracks [] group_to_bonuses bonus_to_track = bonus_to_track"
| "join_tracks ((group_id, track_num) # items) group_to_bonuses bonus_to_track =
     (case map_of TRACK_NAMES track_num of
        None \<Rightarrow> join_tracks items group_to_bonuses bonus_to_track
      | Some track_name \<Rightarrow>
          join_tracks items group_to_bonuses
            (record_bonuses (dict_get group_to_bonuses group_id []) track_name bonus_to_track))"

definition build_track_mapping :: "world \<Rightarrow> run \<Rightarrow> (py_exn + (int, string) pydict) \<times> run" where
  "build_track_mapping w s =
     (case fetch_db2_table w ''ItemBonusSeasonBonusListGroup'' s of
        (Inl e, s1) \<Rightarrow> (Inl e, s1)
      | (Inr bonus_list_groups, s1) \<Rightarrow>
          (case fetch_db2_table w ''ItemBonusListGroupEntry'' s1 of
             (Inl e, s2) \<Rightarrow> (Inl e, s2)
           | (Inr group_entries, s2) \<Rightarrow>
               if bonus_list_groups = [] \<or> group_entries = []
               then (Inr [], print ''Warning: Failed to fetch required tables'' s2)
               else
                 (let group_to_track = scan_track_rows (int_max_str_digits w) bonus_list_groups [];
                      s3 = print (''Found '' @ string_of_nat (length group_to_track)
                                  @ '' groups with valid track numbers'') s2;
                      group_to_bonuses = scan_bonus_rows (int_max_str_digits w) group_entries [];
                      s4 = print (''Found '' @ string_of_nat (length group_to_bonuses)
                                  @ '' groups with bonus entries'') s3;
                      bonus_to_track = join_tracks group_to_track group_to_bonuses [];
                      s5 = print (''Mapped '' @ string_of_nat (length bonus_to_track)
                                  @ '' bonus IDs to tracks'') s4
                  in (Inr bonus_to_track, s5))))"

subsection \<open>generate\_lua and main\<close>

text \<open>\<open>sorted(d.items())\<close> on a dict with integer keys: insertion sort by key.\<close>

definition sorted_items :: "(int, string) pydict \<Rightarrow> (int \<times> string) list" where
  "sorted_items d = sort_key fst d"

definition generate_lua ::
  "world \<Rightarrow> (int, string) pydict \<Rightarrow> json \<Rightarrow> run \<Rightarrow> (py_exn + unit) \<times> run" where
  "generate_lua w bonus_to_track build_version s =
     (case template w of
        No_template \<Rightarrow>
          (Inl (SystemExit 1), print (''Error: Template not found at '' @ template_path w) s)
      | Broken_template \<Rightarrow> (Inl TemplateError, s)
      | Template render \<Rightarrow>
          (let sorted_mapping = dict_of (sorted_items bonus_to_track);
               lua_content = render sorted_mapping build_version
           in if writable w
              then (Inr (), print (''Generated '' @ output_path w @ '' (build ''
                                    @ py_str w build_version @ '')'')
                              (s\<lparr>written := Some (to_disk (os w) lua_content)\<rparr>))
              else (Inl OSError, s)))"



section \<open>The specification's side\<close>

text \<open>
  The decision table of the staleness detector, rule by rule as the specification lists
  it: forced; no previous artifact; no marker; current build unknown; same build; else.
\<close>

fun decision_table :: "bool \<Rightarrow> bool \<Rightarrow> bool \<Rightarrow> bool \<Rightarrow> bool \<Rightarrow> bool" where
  "decision_table forced has_artifact has_marker resolvable same =
     (if forced then True
      else if \<not> has_artifact then True
      else if \<not> has_marker then True
      else if \<not> resolvable then False
      else if same then False
      else True)"

text \<open>
  The groups of \<open>group_to_track\<close>, in its order, whose bonus list holds \<open>b\<close>.
\<close>

definition reaching :: "(int, int) pydict \<Rightarrow> (int, int list) pydict \<Rightarrow> int \<Rightarrow> (int \<times> int) list" where
  "reaching group_to_track group_to_bonuses b =
     filter (\<lambda>(g, t). b \<in> set (dict_get group_to_bonuses g [])) group_to_track"

text \<open>
  A row as the specification describes it: the header line and a data line are split at
  commas, trimmed, and zipped position by position into a \<open>dict\<close>.
\<close>

definition zip_row :: "string \<Rightarrow> string \<Rightarrow> row" where
  "zip_row header line =
     dict_of (zip (map py_strip (split_on (CHR '','') header))
                  (map py_strip (split_on (CHR '','') line)))"

text \<open>
  A well-formed row of the group-to-track table, in the specification's words: both
  fields are present, non-empty and numeric, and the track number lies in 1..6. Numeric
  means that \<open>int\<close> converts the field, under the interpreter's digit limit \<open>cap\<close>. The
  value is the pair of group ID and track number. The canonical names are those the
  specification lists.
\<close>

definition track_row :: "nat \<Rightarrow> row \<Rightarrow> (int \<times> int) option" where
  "track_row cap r =
     (let group_id = dict_get r ''ItemBonusListGroupID'' '''';
          track_num = dict_get r ''Field_10_1_0_48898_002'' ''''
      in if group_id = [] \<or> track_num = [] then None
         else (case (py_int cap group_id, py_int cap track_num) of
                 (Some g, Some t) \<Rightarrow> if 1 \<le> t \<and> t \<le> 6 then Some (g, t) else None
               | _ \<Rightarrow> None))"

definition canonical_name :: "int \<Rightarrow> string" where
  "canonical_name t =
     (if t = 1 then ''explorer'' else if t = 2 then ''adventurer''
      else if t = 3 then ''veteran'' else if t = 4 then ''champion''
      else if t = 5 then ''hero'' else ''myth'')"

text \<open>
  A text as \<open>read_text\<close> returns it after \<open>open(path, "w")\<close> wrote it on platform
  \<open>p\<close>.
\<close>

definition read_back :: "platform \<Rightarrow> string \<Rightarrow> string" where
  "read_back p text = universal_newlines (to_disk p text)"






section \<open>Sample worlds\<close>

text \<open>
  Modelled from the spec: \<open>TrackData.template\<close> is not among the sources. This stand-in
  renders a header line, the marker line \<open>-- Build: <version>\<close> the specification
  names, and one line per entry of the mapping.
\<close>

definition sample_template :: "(int, string) pydict \<Rightarrow> json \<Rightarrow> string" where
  "sample_template track_ids build_version =
     ''-- Generated file'' @ [nl] @ ''-- Build: ''
       @ (case build_version of JStr v \<Rightarrow> v | _ \<Rightarrow> ''None'') @ [nl]
       @ concat (map (\<lambda>(b, n). string_of_nat (nat b) @ '' = '' @ n @ [nl]) track_ids)"

text \<open>
  A world with that template, an output file that can be written, Unix line ends and the
  default digit limit; the command line, the previous artifact and the network are given.
\<close>

definition sample_world :: "cli \<Rightarrow> file_state \<Rightarrow> (nat \<Rightarrow> string \<Rightarrow> http_outcome) \<Rightarrow> world" where
  "sample_world args file net =
     \<lparr>argv = args, artifact = file, http = net, template = Template sample_template,
      writable = True, os = Posix, int_max_str_digits = 4300,
      py_repr = (\<lambda>v. ''<value>''), output_path = ''TrackData.lua'',
      template_path = ''scripts/TrackData.template''\<rparr>"

text \<open>
  Networks: every request fails; every request gets one response; only the first request
  succeeds (the group table, with one row).
\<close>

definition offline :: "nat \<Rightarrow> string \<Rightarrow> http_outcome" where
  "offline n url = Failed ''connection refused''"

definition serving :: "response \<Rightarrow> nat \<Rightarrow> string \<Rightarrow> http_outcome" where
  "serving r n url = Response r"

definition ok_response :: "string \<Rightarrow> response" where
  "ok_response body =
     \<lparr>status_code = 200, http_reason = ''OK'', resp_url = [], resp_text = body, json = None\<rparr>"

definition builds_response :: "json \<Rightarrow> response" where
  "builds_response b =
     \<lparr>status_code = 200, http_reason = ''OK'', resp_url = [], resp_text = [], json = Some b\<rparr>"

definition one_table :: "nat \<Rightarrow> string \<Rightarrow> http_outcome" where
  "one_table n url =
     (if n = 0
      then Response (ok_response (''ItemBonusListGroupID,Field_10_1_0_48898_002'' @ [nl] @ ''10,2''))
      else Failed ''connection refused'')"



definition misshapen_builds :: "nat \<Rightarrow> string \<Rightarrow> http_outcome" where
  "misshapen_builds = serving (builds_response (JObj [(''wow'', JInt 5)]))"

definition old_artifact :: file_state where
  "old_artifact = Text (''-- Build: 1.0'' @ [nl])"

definition csv_sample :: string where
  "csv_sample = ''a, b ,c'' @ [nl] @ ''1,2'' @ [nl] @ [nl] @ ''4,5,6,7'' @ [nl]"

definition track_rows_sample :: "row list" where
  "track_rows_sample =
     [[(''ItemBonusListGroupID'', ''10''), (''Field_10_1_0_48898_002'', ''2'')],
      [(''ItemBonusListGroupID'', ''11''), (''Field_10_1_0_48898_002'', ''9'')],
      [(''ItemBonusListGroupID'', ''x12''), (''Field_10_1_0_48898_002'', ''3'')],
      [(''ItemBonusListGroupID'', ''13'')],
      [(''ItemBonusListGroupID'', ''20''), (''Field_10_1_0_48898_002'', ''6'')]]"

section \<open>Properties\<close>

subsection \<open>Strings and dicts\<close>

lemma split_on_nonempty: "split_on sep s \<noteq> []"
  by (induction s) (auto split: list.splits)

lemma map_of_replace:
  "map_of (map (\<lambda>(k', v'). if k' = k then (k', v) else (k', v')) d) x =
     (if x = k then (if k \<in> fst ` set d then Some v else None) else map_of d x)"
  by (induction d) (force simp: image_iff)+

lemma map_of_dict_set: "map_of (dict_set d k v) = (map_of d)(k \<mapsto> v)"
proof (cases "k \<in> fst ` set d")
  case True
  then show ?thesis by (auto simp: dict_set_def fun_eq_iff map_of_replace)
next
  case False
  then have "map_of d k = None" by (simp add: map_of_eq_None_iff)
  with False show ?thesis
    by (auto simp: dict_set_def fun_eq_iff map_add_def split: option.splits)
qed

lemma map_fst_dict_set:
  "map fst (dict_set d k v) = (if k \<in> fst ` set d then map fst d else map fst d @ [k])"
  by (auto simp: dict_set_def split: prod.splits)

lemma keys_dict_set: "fst ` set (dict_set d k v) = insert k (fst ` set d)"
proof -
  have "set (map fst (dict_set d k v)) = insert k (set (map fst d))"
    by (auto simp: map_fst_dict_set)
  then show ?thesis by simp
qed

lemma distinct_dict_set: "distinct (map fst d) \<Longrightarrow> distinct (map fst (dict_set d k v))"
  by (simp add: map_fst_dict_set)

subsection \<open>The join of the two tables\<close>

lemma map_of_record_bonuses:
  "map_of (record_bonuses bs n d) b = (if b \<in> set bs then Some n else map_of d b)"
  by (induction bs n d rule: record_bonuses.induct) (auto simp: map_of_dict_set)

lemma distinct_record_bonuses:
  "distinct (map fst d) \<Longrightarrow> distinct (map fst (record_bonuses bs n d))"
  by (induction bs n d rule: record_bonuses.induct) (auto simp: distinct_dict_set)

lemma distinct_join_tracks:
  "distinct (map fst d) \<Longrightarrow> distinct (map fst (join_tracks gtt gtb d))"
  by (induction gtt gtb d rule: join_tracks.induct)
     (auto simp: distinct_record_bonuses split: option.splits)

lemma track_name_defined: "1 \<le> t \<Longrightarrow> t \<le> 6 \<Longrightarrow> map_of TRACK_NAMES t \<noteq> None"
proof -
  assume "1 \<le> t" "t \<le> 6"
  then have "t = 1 \<or> t = 2 \<or> t = 3 \<or> t = 4 \<or> t = 5 \<or> t = 6" by arith
  then show ?thesis by (auto simp: TRACK_NAMES_def)
qed

lemma map_of_join_tracks:
  assumes "\<forall>(g, t) \<in> set gtt. 1 \<le> t \<and> t \<le> 6"
  shows "map_of (join_tracks gtt gtb d) b =
     (if reaching gtt gtb b = [] then map_of d b
      else map_of TRACK_NAMES (snd (last (reaching gtt gtb b))))"
  using assms
proof (induction gtt gtb d rule: join_tracks.induct)
  case (1 gtb d)
  then show ?case by (simp add: reaching_def)
next
  case (2 g t items gtb d)
  then have "map_of TRACK_NAMES t \<noteq> None" by (simp add: track_name_defined)
  then obtain n where n: "map_of TRACK_NAMES t = Some n" by auto
  with 2 show ?case
    by (auto simp: reaching_def map_of_record_bonuses)
qed

text \<open>
  C2, as the code has it. With every track number in 1..6: a bonus ID is a key of the
  derived mapping exactly when some group of \<open>group_to_track\<close> lists it; the entry
  \<open>b \<mapsto> n\<close> is in the mapping exactly when \<open>n\<close> is the name of the track of the
  last group, in the order of \<open>group_to_track\<close>, that lists \<open>b\<close> (a later group
  overwrites an earlier one); a group with no entry in \<open>group_to_bonuses\<close> adds
  nothing; and the scenario of the specification yields its three entries.
\<close>

theorem bonus_to_track_last_group_wins:
  assumes tracks: "\<forall>(g, t) \<in> set group_to_track. 1 \<le> t \<and> t \<le> 6"
  shows "(b \<in> fst ` set (join_tracks group_to_track group_to_bonuses []) \<longleftrightarrow>
            (\<exists>g t. (g, t) \<in> set group_to_track \<and> b \<in> set (dict_get group_to_bonuses g [])))
       \<and> ((b, n) \<in> set (join_tracks group_to_track group_to_bonuses []) \<longleftrightarrow>
            (\<exists>gs g t. reaching group_to_track group_to_bonuses b = gs @ [(g, t)]
                      \<and> map_of TRACK_NAMES t = Some n))
       \<and> (g \<notin> fst ` set group_to_bonuses \<longrightarrow>
            join_tracks ((g, t) # group_to_track) group_to_bonuses d
              = join_tracks group_to_track group_to_bonuses d)
       \<and> join_tracks [(10, 2), (20, 6)] [(10, [100, 101]), (20, [200])] []
            = [(100, ''adventurer''), (101, ''adventurer''), (200, ''myth'')]"
proof -
  let ?r = "join_tracks group_to_track group_to_bonuses []"
  let ?xs = "reaching group_to_track group_to_bonuses b"
  have dist: "distinct (map fst ?r)" by (simp add: distinct_join_tracks)
  have look: "map_of ?r b = (if ?xs = [] then None else map_of TRACK_NAMES (snd (last ?xs)))"
    using map_of_join_tracks [OF tracks, of group_to_bonuses "[]" b] by simp
  have mem: "(b, n) \<in> set ?r \<longleftrightarrow> map_of ?r b = Some n"
    using dist by simp
  have names: "map_of TRACK_NAMES (snd x) \<noteq> None" if "x \<in> set ?xs" for x
  proof -
    from that have "x \<in> set group_to_track" by (simp add: reaching_def)
    with tracks have "1 \<le> snd x \<and> snd x \<le> 6" by (cases x) auto
    then show ?thesis by (simp add: track_name_defined)
  qed
  have A: "(b, n) \<in> set ?r \<longleftrightarrow>
            (\<exists>gs g t. ?xs = gs @ [(g, t)] \<and> map_of TRACK_NAMES t = Some n)"
  proof (cases ?xs rule: rev_cases)
    case Nil
    with look mem show ?thesis by simp
  next
    case (snoc ys y)
    then have "map_of ?r b = map_of TRACK_NAMES (snd y)"
      using look by simp
    with snoc mem show ?thesis by (cases y) auto
  qed
  have B: "b \<in> fst ` set ?r \<longleftrightarrow>
            (\<exists>g t. (g, t) \<in> set group_to_track \<and> b \<in> set (dict_get group_to_bonuses g []))"
  proof -
    have "b \<in> fst ` set ?r \<longleftrightarrow> map_of ?r b \<noteq> None"
      by (simp add: map_of_eq_None_iff)
    also have "\<dots> \<longleftrightarrow> ?xs \<noteq> []"
    proof (cases ?xs rule: rev_cases)
      case Nil
      with look show ?thesis by simp
    next
      case (snoc ys y)
      then have "map_of ?r b = map_of TRACK_NAMES (snd y)"
        using look by simp
      moreover have "map_of TRACK_NAMES (snd y) \<noteq> None" using names [of y] snoc by simp
      ultimately show ?thesis using snoc by simp
    qed
    also have "\<dots> \<longleftrightarrow> (\<exists>g t. (g, t) \<in> set group_to_track \<and> b \<in> set (dict_get group_to_bonuses g []))"
      by (auto simp: reaching_def filter_empty_conv)
    finally show ?thesis .
  qed
  have C: "g \<notin> fst ` set group_to_bonuses \<longrightarrow>
            join_tracks ((g, t) # group_to_track) group_to_bonuses d
              = join_tracks group_to_track group_to_bonuses d"
  proof
    assume "g \<notin> fst ` set group_to_bonuses"
    then have "map_of group_to_bonuses g = None" by (simp add: map_of_eq_None_iff)
    then have "dict_get group_to_bonuses g [] = []" by (simp add: dict_get_def)
    then show "join_tracks ((g, t) # group_to_track) group_to_bonuses d
              = join_tracks group_to_track group_to_bonuses d"
      by (simp split: option.splits)
  qed
  have D: "join_tracks [(10, 2), (20, 6)] [(10, [100, 101]), (20, [200])] []
            = [(100, ''adventurer''), (101, ''adventurer''), (200, ''myth'')]"
    by (simp add: TRACK_NAMES_def dict_get_def dict_set_def)
  from A B C D show ?thesis by blast
qed

text \<open>
  The claim as first stated fails where two groups with different tracks list one bonus
  ID: group 1 has track 1 and lists 100, yet the mapping holds 100 under the name
  adventurer only.
\<close>

theorem bonus_to_track_conflict:
  "(1, 1) \<in> set [(1, 1), (2, 2 :: int)]
   \<and> (100 :: int) \<in> set (dict_get [(1, [100]), (2, [100])] (1 :: int) [])
   \<and> map_of TRACK_NAMES 1 = Some ''explorer''
   \<and> (100, ''explorer'') \<notin> set (join_tracks [(1, 1), (2, 2)] [(1, [100]), (2, [100])] [])
   \<and> join_tracks [(1, 1), (2, 2)] [(1, [100]), (2, [100])] [] = [(100, ''adventurer'')]"
  by (simp add: TRACK_NAMES_def dict_get_def dict_set_def)

theorem bonus_to_track_last_group_wins_witness:
  "(100 \<in> fst ` set (join_tracks [(1, 1), (2, 2)] [(1, [100]), (2, [100]), (3, [7])] []))
   \<and> (100, ''adventurer'') \<in> set (join_tracks [(1, 1), (2, 2)] [(1, [100]), (2, [100]), (3, [7])] [])
   \<and> 7 \<notin> fst ` set (join_tracks [(1, 1), (2, 2)] [(1, [100]), (2, [100]), (3, [7])] [])
   \<and> join_tracks [(5, 3), (1, 1), (2, 2)] [(1, [100]), (2, [100]), (3, [7])] []
        = join_tracks [(1, 1), (2, 2)] [(1, [100]), (2, [100]), (3, [7])] []"
proof -
  let ?gtt = "[(1, 1), (2, 2)] :: (int, int) pydict"
  let ?gtb = "[(1, [100]), (2, [100]), (3, [7])] :: (int, int list) pydict"
  have tracks: "\<forall>(g, t) \<in> set ?gtt. 1 \<le> t \<and> t \<le> 6" by simp
  have r: "\<exists>gs g t. reaching ?gtt ?gtb 100 = gs @ [(g, t)] \<and> map_of TRACK_NAMES t = Some ''adventurer''"
  proof -
    have "reaching ?gtt ?gtb 100 = [(1, 1)] @ [(2, 2)]" by (simp add: reaching_def dict_get_def)
    moreover have "map_of TRACK_NAMES 2 = Some ''adventurer''" by (simp add: TRACK_NAMES_def)
    ultimately show ?thesis by blast
  qed
  have e: "\<exists>g t. (g, t) \<in> set ?gtt \<and> 100 \<in> set (dict_get ?gtb g [])"
    by (auto simp: dict_get_def)
  have g: "5 \<notin> fst ` set ?gtb" by simp
  have no7: "\<not> (\<exists>g t. (g, t) \<in> set ?gtt \<and> 7 \<in> set (dict_get ?gtb g []))"
    by (auto simp: dict_get_def)
  note T = bonus_to_track_last_group_wins [OF tracks, of _ ?gtb]
  from T [of 100 "''adventurer''" 5 3 "[]"] r e g have
    "100 \<in> fst ` set (join_tracks ?gtt ?gtb [])"
    "(100, ''adventurer'') \<in> set (join_tracks ?gtt ?gtb [])"
    "join_tracks ((5, 3) # ?gtt) ?gtb [] = join_tracks ?gtt ?gtb []"
    by blast+
  moreover from T [of 7 "''x''" 5 3 "[]"] no7 have "7 \<notin> fst ` set (join_tracks ?gtt ?gtb [])"
    by blast
  ultimately show ?thesis by simp
qed

subsection \<open>Fetching and parsing a table\<close>

lemma map_of_foldl_dict_set:
  "map_of (foldl (\<lambda>d (k, v). dict_set d k v) d items) = map_of d ++ map_of (rev items)"
proof (induction items arbitrary: d)
  case Nil
  then show ?case by simp
next
  case (Cons x xs)
  obtain k v where x: "x = (k, v)" by (cases x)
  have "map_of (foldl (\<lambda>d (k, v). dict_set d k v) (dict_set d k v) xs)
          = (map_of d)(k \<mapsto> v) ++ map_of (rev xs)"
    by (simp only: Cons.IH map_of_dict_set)
  also have "\<dots> = map_of d ++ (map_of (rev xs @ [(k, v)]))"
    by (simp add: map_add_upd_left fun_eq_iff map_add_def split: option.splits)
  finally show ?case by (simp add: x)
qed

lemma keys_foldl_dict_set:
  "fst ` set (foldl (\<lambda>d (k, v). dict_set d k v) d items) = fst ` set d \<union> fst ` set items"
proof (induction items arbitrary: d)
  case Nil
  then show ?case by simp
next
  case (Cons x xs)
  obtain k v where x: "x = (k, v)" by (cases x)
  have "fst ` set (foldl (\<lambda>d (k, v). dict_set d k v) (dict_set d k v) xs)
          = fst ` set (dict_set d k v) \<union> fst ` set xs"
    by (rule Cons.IH)
  then show ?case by (simp add: x keys_dict_set)
qed

lemma fill_row_foldl:
  "fill_row hs i vals r =
     foldl (\<lambda>d (k, v). dict_set d k v) r (zip (map py_strip hs) (map py_strip (drop i vals)))"
proof (induction hs i vals r rule: fill_row.induct)
  case (1 i vals r)
  then show ?case by simp
next
  case (2 header hs i vals r)
  show ?case
  proof (cases "i < length vals")
    case True
    then have "drop i vals = vals ! i # drop (Suc i) vals"
      by (simp add: Cons_nth_drop_Suc)
    with 2 True show ?thesis by simp
  next
    case False
    with 2 show ?thesis by simp
  qed
qed

lemma fill_row_zip: "fill_row (split_on (CHR '','') header) 0 (split_on (CHR '','') line) [] = zip_row header line"
  by (simp add: fill_row_foldl zip_row_def dict_of_def)

lemma scan_lines_map:
  "scan_lines (split_on (CHR '','') header) ls rows =
     rows @ map (zip_row header) (filter (\<lambda>l. py_strip l \<noteq> []) ls)"
  by (induction ls arbitrary: rows) (simp_all add: fill_row_zip)

lemma requests_print [simp]: "requests (print line s) = requests s"
  by (simp add: print_def)

text \<open>
  C8. When the request succeeds and the stripped body has at least two lines, the rows
  returned are: the first line taken as header, every later line that is blank skipped,
  every other line turned into \<open>zip_row header line\<close>, i.e. header names and values
  split at commas, trimmed and zipped by position. The keys of such a row are the
  trimmed header names at the positions the line has values for: values beyond the
  header are dropped, headers beyond the values are absent, nothing is padded.
\<close>

theorem fetch_db2_table_rows:
  assumes "http w (length (requests s)) (WAGO_BASE @ ''/'' @ table_name @ ''/csv'') = Response r"
    and "raise_for_status r = Inr ()"
    and "2 \<le> length (split_on nl (py_strip (resp_text r)))"
  shows "fst (fetch_db2_table w table_name s)
           = Inr (map (zip_row (hd (split_on nl (py_strip (resp_text r)))))
                    (filter (\<lambda>l. py_strip l \<noteq> []) (tl (split_on nl (py_strip (resp_text r))))))
       \<and> fst ` set (zip_row header line)
           = set (take (length (split_on (CHR '','') line)) (map py_strip (split_on (CHR '','') header)))
       \<and> map_of (zip_row header line) k
           = map_of (rev (zip (map py_strip (split_on (CHR '','') header))
                              (map py_strip (split_on (CHR '','') line)))) k"
proof -
  have "fst (fetch_db2_table w table_name s) = Inr (parse_csv (resp_text r))"
    using assms(1,2) by (simp add: fetch_db2_table_def requests_get_def Let_def)
  moreover have "parse_csv (resp_text r)
      = map (zip_row (hd (split_on nl (py_strip (resp_text r)))))
          (filter (\<lambda>l. py_strip l \<noteq> []) (tl (split_on nl (py_strip (resp_text r)))))"
    using assms(3) by (simp add: parse_csv_def Let_def scan_lines_map)
  moreover have "fst ` set (zip_row header line)
      = set (take (length (split_on (CHR '','') line)) (map py_strip (split_on (CHR '','') header)))"
  proof -
    have "fst ` set (zip xs ys) = set (take (length ys) xs)" for xs :: "string list" and ys :: "string list"
      by (metis length_map list.set_map map_fst_zip_take min.commute take_map take_all_iff le_cases min_def)
    then show ?thesis
      by (simp add: zip_row_def dict_of_def keys_foldl_dict_set)
  qed
  moreover have "map_of (zip_row header line) k
      = map_of (rev (zip (map py_strip (split_on (CHR '','') header))
                         (map py_strip (split_on (CHR '','') line)))) k"
    by (simp add: zip_row_def dict_of_def map_of_foldl_dict_set)
  ultimately show ?thesis by simp
qed


theorem fetch_db2_table_rows_witness:
  "fst (fetch_db2_table (sample_world (Namespace True) Absent (serving (ok_response csv_sample)))
          ''ItemBonusListGroupEntry'' run0)
     = Inr [[(''a'', ''1''), (''b'', ''2'')], [(''a'', ''4''), (''b'', ''5''), (''c'', ''6'')]]
   \<and> fst ` set (zip_row ''a, b ,c'' ''1,2'') = {''a'', ''b''}
   \<and> map_of (zip_row ''a, b ,c'' ''1,2'') ''c'' = None"
proof -
  let ?w = "sample_world (Namespace True) Absent (serving (ok_response csv_sample))"
  have lines: "split_on nl (py_strip (resp_text (ok_response csv_sample)))
                 = [''a, b ,c'', ''1,2'', [], ''4,5,6,7'']"
    by (simp add: ok_response_def csv_sample_def py_strip_def py_isspace_def)
  have h1: "http ?w (length (requests run0)) (WAGO_BASE @ ''/'' @ ''ItemBonusListGroupEntry'' @ ''/csv'')
              = Response (ok_response csv_sample)"
    by (simp add: sample_world_def serving_def)
  have h2: "raise_for_status (ok_response csv_sample) = Inr ()"
    by (simp add: raise_for_status_def ok_response_def)
  have h3: "2 \<le> length (split_on nl (py_strip (resp_text (ok_response csv_sample))))"
    by (simp add: lines)
  have rows: "map (zip_row ''a, b ,c'') (filter (\<lambda>l. py_strip l \<noteq> []) [''1,2'', [], ''4,5,6,7''])
                = [[(''a'', ''1''), (''b'', ''2'')], [(''a'', ''4''), (''b'', ''5''), (''c'', ''6'')]]"
    by (simp add: zip_row_def dict_of_def dict_set_def py_strip_def py_isspace_def)
  have keys: "set (take (length (split_on (CHR '','') ''1,2'')) (map py_strip (split_on (CHR '','') ''a, b ,c'')))
                = {''a'', ''b''}"
    by (simp add: py_strip_def py_isspace_def)
  have look: "map_of (rev (zip (map py_strip (split_on (CHR '','') ''a, b ,c''))
                              (map py_strip (split_on (CHR '','') ''1,2'')))) ''c'' = None"
    by (simp add: py_strip_def py_isspace_def)
  from fetch_db2_table_rows [OF h1 h2 h3, of "''a, b ,c''" "''1,2''" "''c''"] lines rows keys look
  show ?thesis by simp
qed

subsection \<open>Failing soft\<close>

lemma stdout_print [simp]: "stdout (print line s) = stdout s @ [line]"
  by (simp add: print_def)







subsection \<open>Both tables are needed\<close>

text \<open>
  C9. If either fetched table is empty, \<open>build_track_mapping\<close> returns the empty
  mapping, and the only thing it adds after the two fetches is the warning line: none of
  the three count lines printed after the scans appears.
\<close>

theorem build_track_mapping_needs_both_tables:
  assumes "fetch_db2_table w ''ItemBonusSeasonBonusListGroup'' s = (Inr bonus_list_groups, s1)"
    and "fetch_db2_table w ''ItemBonusListGroupEntry'' s1 = (Inr group_entries, s2)"
    and "bonus_list_groups = [] \<or> group_entries = []"
  shows "build_track_mapping w s = (Inr [], print ''Warning: Failed to fetch required tables'' s2)
       \<and> stdout (snd (build_track_mapping w s))
           = stdout s2 @ [''Warning: Failed to fetch required tables'']"
  using assms by (auto simp: build_track_mapping_def)

theorem build_track_mapping_needs_both_tables_witness:
  "fst (fetch_db2_table (sample_world (Namespace True) Absent one_table)
          ''ItemBonusSeasonBonusListGroup'' run0)
     = Inr [[(''ItemBonusListGroupID'', ''10''), (''Field_10_1_0_48898_002'', ''2'')]]
   \<and> fst (build_track_mapping (sample_world (Namespace True) Absent one_table) run0) = Inr []
   \<and> stdout (snd (build_track_mapping (sample_world (Namespace True) Absent one_table) run0))
     = [''Fetching ItemBonusSeasonBonusListGroup...'', ''Fetching ItemBonusListGroupEntry...'',
        ''Error fetching ItemBonusListGroupEntry: connection refused'',
        ''Warning: Failed to fetch required tables'']"
proof -
  let ?w = "sample_world (Namespace True) Absent one_table"
  let ?f1 = "fetch_db2_table ?w ''ItemBonusSeasonBonusListGroup'' run0"
  let ?f2 = "fetch_db2_table ?w ''ItemBonusListGroupEntry'' (snd ?f1)"
  have f1: "?f1 = (Inr [[(''ItemBonusListGroupID'', ''10''), (''Field_10_1_0_48898_002'', ''2'')]],
                   \<lparr>requests = [''https://wago.tools/db2/ItemBonusSeasonBonusListGroup/csv''],
                    reads = 0, stdout = [''Fetching ItemBonusSeasonBonusListGroup...''],
                    written = None\<rparr>)"
    by (simp add: fetch_db2_table_def requests_get_def Let_def parse_csv_def sample_world_def
        one_table_def ok_response_def raise_for_status_def run0_def print_def WAGO_BASE_def
        py_strip_def py_isspace_def dict_set_def)
  have f2: "?f2 = (Inr [],
                   \<lparr>requests = [''https://wago.tools/db2/ItemBonusSeasonBonusListGroup/csv'',
                                ''https://wago.tools/db2/ItemBonusListGroupEntry/csv''],
                    reads = 0,
                    stdout = [''Fetching ItemBonusSeasonBonusListGroup...'',
                              ''Fetching ItemBonusListGroupEntry...'',
                              ''Error fetching ItemBonusListGroupEntry: connection refused''],
                    written = None\<rparr>)"
    by (simp add: f1) (simp add: fetch_db2_table_def requests_get_def Let_def sample_world_def
        one_table_def print_def WAGO_BASE_def)
  have h1: "?f1 = (Inr [[(''ItemBonusListGroupID'', ''10''), (''Field_10_1_0_48898_002'', ''2'')]], snd ?f1)"
    by (simp add: f1)
  have h2: "?f2 = (Inr [], snd ?f2)" by (simp add: f2)
  have h3: "[[(''ItemBonusListGroupID'', ''10''), (''Field_10_1_0_48898_002'', ''2'')]] = [] \<or> ([] :: row list) = []"
    by simp
  from build_track_mapping_needs_both_tables [OF h1 h2 h3] f1 f2 show ?thesis by simp
qed

subsection \<open>The group-to-track table\<close>

lemma in_track_names: "t \<in> fst ` set TRACK_NAMES \<longleftrightarrow> 1 \<le> t \<and> t \<le> 6"
proof -
  have "fst ` set TRACK_NAMES = {1, 2, 3, 4, 5, 6}" by (simp add: TRACK_NAMES_def)
  then show ?thesis by auto
qed

lemma track_name_canonical:
  assumes "1 \<le> t" "t \<le> 6"
  shows "map_of TRACK_NAMES t = Some (canonical_name t)"
proof -
  from assms have "t = 1 \<or> t = 2 \<or> t = 3 \<or> t = 4 \<or> t = 5 \<or> t = 6" by arith
  then show ?thesis by (auto simp: TRACK_NAMES_def canonical_name_def)
qed

lemma scan_track_rows_step:
  "scan_track_rows cap (r # rs) d =
     scan_track_rows cap rs (case track_row cap r of None \<Rightarrow> d | Some (g, t) \<Rightarrow> dict_set d g t)"
  by (simp add: track_row_def Let_def in_track_names split: option.splits)

lemma scan_track_rows_foldl:
  "scan_track_rows cap rows d =
     foldl (\<lambda>d (k, v). dict_set d k v) d (List.map_filter (track_row cap) rows)"
proof (induction rows arbitrary: d)
  case Nil
  then show ?case by (simp add: List.map_filter_simps)
next
  case (Cons r rs)
  show ?case
    by (simp only: scan_track_rows_step Cons.IH)
       (simp add: List.map_filter_simps split: option.splits)
qed

lemma in_set_map_filter: "y \<in> set (List.map_filter f xs) \<longleftrightarrow> (\<exists>x \<in> set xs. f x = Some y)"
  by (induction xs) (auto split: option.splits)

lemma map_of_rev_agree:
  assumes "(g, t) \<in> set xs" "\<forall>t'. (g, t') \<in> set xs \<longrightarrow> t' = t"
  shows "map_of (rev xs) g = Some t"
proof (cases "map_of (rev xs) g")
  case None
  then have "g \<notin> fst ` set (rev xs)" by (simp add: map_of_eq_None_iff)
  with assms(1) show ?thesis by (force simp: image_iff)
next
  case (Some t')
  then have "(g, t') \<in> set (rev xs)" by (rule map_of_SomeD)
  with assms(2) Some show ?thesis by simp
qed

text \<open>
  C7, as the code has it, under any digit limit \<open>cap\<close> of the interpreter. The table
  built from the rows is the \<open>dict\<close> of the (group, track) pairs of the well-formed
  rows, in row order: a group is mapped to the track number of its last well-formed row. Rows that are not well-formed (a field
  missing, empty or not numeric, or a track number outside 1..6) are excluded entirely:
  dropping them changes nothing. A well-formed row has its track in 1..6, where
  \<open>TRACK_NAMES\<close> gives the canonical name; and when all well-formed rows of a group
  agree on the track number, the group is recorded with exactly that number. No branch
  raises: a \<open>ValueError\<close> of \<open>int\<close> skips the row.
\<close>

theorem group_to_track_last_row_wins:
  "scan_track_rows cap rows [] = dict_of (List.map_filter (track_row cap) rows)
   \<and> map_of (scan_track_rows cap rows []) g = map_of (rev (List.map_filter (track_row cap) rows)) g
   \<and> scan_track_rows cap (filter (\<lambda>r. track_row cap r \<noteq> None) rows) [] = scan_track_rows cap rows []
   \<and> (track_row cap r = Some (g, t) \<longrightarrow>
        1 \<le> t \<and> t \<le> 6 \<and> map_of TRACK_NAMES t = Some (canonical_name t))
   \<and> (r \<in> set rows \<and> track_row cap r = Some (g, t)
        \<and> (\<forall>r' \<in> set rows. \<forall>t'. track_row cap r' = Some (g, t') \<longrightarrow> t' = t) \<longrightarrow>
        map_of (scan_track_rows cap rows []) g = Some t)"
proof -
  let ?xs = "List.map_filter (track_row cap) rows"
  have A: "scan_track_rows cap rows [] = dict_of ?xs"
    by (simp add: scan_track_rows_foldl dict_of_def)
  have B: "map_of (scan_track_rows cap rows []) g = map_of (rev ?xs) g"
    by (simp add: A dict_of_def map_of_foldl_dict_set)
  have "List.map_filter (track_row cap) (filter (\<lambda>r. track_row cap r \<noteq> None) rows) = ?xs"
    by (simp add: List.map_filter_def)
  then have C: "scan_track_rows cap (filter (\<lambda>r. track_row cap r \<noteq> None) rows) [] = scan_track_rows cap rows []"
    by (simp add: scan_track_rows_foldl)
  have D: "1 \<le> t \<and> t \<le> 6 \<and> map_of TRACK_NAMES t = Some (canonical_name t)"
    if "track_row cap r = Some (g, t)"
  proof -
    from that have "1 \<le> t \<and> t \<le> 6"
      by (auto simp: track_row_def Let_def split: if_splits option.splits)
    then show ?thesis by (simp add: track_name_canonical)
  qed
  have E: "map_of (scan_track_rows cap rows []) g = Some t"
    if "r \<in> set rows" "track_row cap r = Some (g, t)"
      "\<forall>r' \<in> set rows. \<forall>t'. track_row cap r' = Some (g, t') \<longrightarrow> t' = t"
  proof -
    have mem: "(g, t') \<in> set ?xs \<longleftrightarrow> (\<exists>r' \<in> set rows. track_row cap r' = Some (g, t'))" for t'
      by (simp add: in_set_map_filter)
    from that(1,2) have "(g, t) \<in> set ?xs" using mem by blast
    moreover from that(3) have "\<forall>t'. (g, t') \<in> set ?xs \<longrightarrow> t' = t" using mem by blast
    ultimately have "map_of (rev ?xs) g = Some t" by (rule map_of_rev_agree)
    with B show ?thesis by simp
  qed
  from A B C D E show ?thesis by blast
qed

text \<open>
  The claim as first stated fails when two well-formed rows name the same group: the
  first row has track 2 (adventurer), yet group 10 is recorded with track 3 (veteran).
\<close>

theorem group_to_track_overwritten:
  "track_row 4300 [(''ItemBonusListGroupID'', ''10''), (''Field_10_1_0_48898_002'', ''2'')] = Some (10, 2)
   \<and> canonical_name 2 = ''adventurer''
   \<and> scan_track_rows 4300
        [[(''ItemBonusListGroupID'', ''10''), (''Field_10_1_0_48898_002'', ''2'')],
         [(''ItemBonusListGroupID'', ''10''), (''Field_10_1_0_48898_002'', ''3'')]] []
      = [(10, 3)]
   \<and> map_of TRACK_NAMES 3 = Some ''veteran''"
  by (simp add: track_row_def dict_get_def py_int_def int_strip_def int_isspace_def int_body_def
      is_digit_def decimal_def digit_val_def TRACK_NAMES_def dict_set_def canonical_name_def)

lemma track_rows_sample_values:
  "List.map_filter (track_row 4300) track_rows_sample = [(10, 2), (20, 6)]"
  by (simp add: List.map_filter_simps track_rows_sample_def track_row_def dict_get_def py_int_def
      int_strip_def int_isspace_def int_body_def is_digit_def decimal_def digit_val_def)

theorem group_to_track_last_row_wins_witness:
  "scan_track_rows 4300 track_rows_sample [] = [(10, 2), (20, 6)]
   \<and> map_of (scan_track_rows 4300 track_rows_sample []) 20 = Some 6
   \<and> map_of TRACK_NAMES 6 = Some ''myth''
   \<and> map_of (scan_track_rows 4300 track_rows_sample []) 11 = None"
proof -
  let ?r = "[(''ItemBonusListGroupID'', ''20''), (''Field_10_1_0_48898_002'', ''6'')]"
  have r: "?r \<in> set track_rows_sample" by (simp add: track_rows_sample_def)
  have v: "track_row 4300 ?r = Some (20, 6)"
    by (simp add: track_row_def dict_get_def py_int_def int_strip_def int_isspace_def int_body_def
        is_digit_def decimal_def digit_val_def)
  have u: "\<forall>r' \<in> set track_rows_sample. \<forall>t'. track_row 4300 r' = Some (20, t') \<longrightarrow> t' = 6"
    by (simp add: track_rows_sample_def track_row_def dict_get_def py_int_def int_strip_def
        int_isspace_def int_body_def is_digit_def decimal_def digit_val_def)
  have d: "dict_of [(10, 2), (20, 6 :: int)] = [(10 :: int, 2), (20, 6)]"
    by (simp add: dict_of_def dict_set_def)
  have c: "canonical_name 6 = ''myth''" by (simp add: canonical_name_def)
  note T = group_to_track_last_row_wins [of 4300 track_rows_sample _ ?r 6]
  from T [of 20] r v u have
    "scan_track_rows 4300 track_rows_sample [] = dict_of (List.map_filter (track_row 4300) track_rows_sample)"
    "map_of (scan_track_rows 4300 track_rows_sample []) 20 = Some 6"
    "map_of TRACK_NAMES 6 = Some (canonical_name 6)"
    by blast+
  moreover from T [of 11]
  have "map_of (scan_track_rows 4300 track_rows_sample []) 11
          = map_of (rev (List.map_filter (track_row 4300) track_rows_sample)) 11"
    by blast
  ultimately show ?thesis by (simp add: track_rows_sample_values d c)
qed

text \<open>
  The digit limit at work: a string of more digits than the limit allows is not
  converted, so a row with such a field is not well-formed and is skipped.
\<close>

lemma split_on_absent: "sep \<notin> set s \<Longrightarrow> split_on sep s = [s]"
  by (induction s) auto

lemma digit_not_space: "is_digit c \<Longrightarrow> \<not> int_isspace c \<and> c \<noteq> CHR ''_'' \<and> c \<noteq> CHR ''-'' \<and> c \<noteq> CHR ''+''"
  by (auto simp: is_digit_def int_isspace_def)

lemma int_strip_digits:
  assumes "list_all is_digit ds"
  shows "int_strip ds = ds"
proof (cases "ds = []")
  case True
  then show ?thesis by (simp add: int_strip_def)
next
  case False
  with assms have "is_digit (hd ds)" "is_digit (last ds)"
    by (simp_all add: list_all_iff)
  then have "\<not> int_isspace (hd ds)" "\<not> int_isspace (hd (rev ds))"
    using False digit_not_space by (simp_all add: hd_rev)
  then have "dropWhile int_isspace ds = ds" "dropWhile int_isspace (rev ds) = rev ds"
    by (simp_all add: dropWhile_eq_self_iff)
  then show ?thesis by (simp add: int_strip_def)
qed

lemma py_int_over_limit:
  assumes "0 < cap" "cap < length ds" "list_all is_digit ds"
  shows "py_int cap ds = None"
proof -
  from assms(1,2) obtain c cs where ds: "ds = c # cs" by (cases ds) auto
  with assms(3) have c: "c \<noteq> CHR ''-''" "c \<noteq> CHR ''+''"
    using digit_not_space [of c] by simp_all
  have "CHR ''_'' \<notin> set ds"
    using assms(3) digit_not_space by (auto simp: list_all_iff)
  then have "split_on (CHR ''_'') ds = [ds]" by (rule split_on_absent)
  with assms(1,2) have "int_body cap ds = None" by (simp add: int_body_def)
  with ds c int_strip_digits [OF assms(3)] show ?thesis by (simp add: py_int_def)
qed

lemma track_row_over_limit:
  assumes "0 < cap" "cap < length ds" "list_all is_digit ds"
    and "dict_get r ''ItemBonusListGroupID'' '''' = ds"
  shows "track_row cap r = None"
  using assms(4) py_int_over_limit [OF assms(1-3)] by (simp add: track_row_def Let_def)


subsection \<open>The marker line read back\<close>

lemma takeWhile_line:
  assumes "nl \<notin> set v" "post = [] \<or> hd post = nl"
  shows "takeWhile (\<lambda>c. c \<noteq> nl) (v @ post) = v"
proof -
  have "takeWhile (\<lambda>c. c \<noteq> nl) post = []"
    using assms(2) by (cases post) auto
  with assms(1) show ?thesis by (simp add: takeWhile_append)
qed

lemma match_at_marker:
  assumes "nl \<notin> set v" "v \<noteq> []" "post = [] \<or> hd post = nl"
  shows "match_at (''-- Build: '' @ v @ post) = Some v"
  using assms by (simp add: match_at_def takeWhile_line)

lemma match_at_complete_lines:
  assumes "xs \<noteq> []" "last xs = nl"
  shows "match_at (xs @ rest) = match_at xs"
proof (cases "length xs \<le> 10")
  case True
  have nl_in: "nl \<in> set xs" using assms by (metis last_in_set)
  have "take 10 xs \<noteq> ''-- Build: ''"
  proof
    assume "take 10 xs = ''-- Build: ''"
    with True have "xs = ''-- Build: ''" by simp
    with assms(2) show False by simp
  qed
  moreover have "take 10 (xs @ rest) \<noteq> ''-- Build: ''"
  proof
    assume e: "take 10 (xs @ rest) = ''-- Build: ''"
    from True have "set xs \<subseteq> set (take 10 (xs @ rest))" by auto
    with nl_in e show False by auto
  qed
  ultimately show ?thesis by (simp add: match_at_def)
next
  case False
  then have t: "take 10 (xs @ rest) = take 10 xs" by simp
  from False assms have "drop 10 xs \<noteq> []" "last (drop 10 xs) = nl" by simp_all
  then have "nl \<in> set (drop 10 xs)" by (metis last_in_set)
  then have "takeWhile (\<lambda>c. c \<noteq> nl) (drop 10 xs @ rest) = takeWhile (\<lambda>c. c \<noteq> nl) (drop 10 xs)"
    by (auto simp: takeWhile_append)
  with t False show ?thesis by (simp add: match_at_def)
qed

lemma re_search_build_skip:
  assumes "re_search_build bol pre = None" "pre = [] \<longrightarrow> bol" "pre \<noteq> [] \<longrightarrow> last pre = nl"
  shows "re_search_build bol (pre @ rest) = re_search_build True rest"
  using assms
proof (induction pre arbitrary: bol)
  case Nil
  then show ?case by simp
next
  case (Cons c cs)
  have m: "match_at ((c # cs) @ rest) = match_at (c # cs)"
    using Cons.prems(3) by (intro match_at_complete_lines) simp_all
  from Cons.prems(1) have a: "bol \<longrightarrow> match_at (c # cs) = None"
    and b: "re_search_build (c = nl) cs = None"
    by (auto split: option.splits if_splits)
  have "re_search_build (c = nl) (cs @ rest) = re_search_build True rest"
    using b Cons.prems(3) by (intro Cons.IH) (auto split: if_splits)
  with a m show ?case by (auto split: option.splits)
qed

lemma re_search_build_marker:
  assumes "nl \<notin> set v" "v \<noteq> []" "post = [] \<or> hd post = nl"
    and "re_search_build True pre = None" "pre = [] \<or> last pre = nl"
  shows "re_search_build True (pre @ ''-- Build: '' @ v @ post) = Some v"
proof -
  have "re_search_build True (pre @ ''-- Build: '' @ v @ post)
          = re_search_build True (''-- Build: '' @ v @ post)"
    using assms(4,5) by (intro re_search_build_skip) auto
  also have "\<dots> = Some v"
    using match_at_marker [OF assms(1-3)] by simp
  finally show ?thesis .
qed

lemma universal_newlines_plain: "cr \<notin> set x \<Longrightarrow> universal_newlines x = x"
  by (induction x rule: universal_newlines.induct) auto

lemma universal_newlines_append:
  "a = [] \<or> last a \<noteq> cr \<Longrightarrow> universal_newlines (a @ b) = universal_newlines a @ universal_newlines b"
proof (induction a rule: universal_newlines.induct)
  case 1
  then show ?case by simp
next
  case (2 c)
  then show ?case by (cases b) auto
next
  case (3 c d cs)
  then show ?case by (auto split: if_splits)
qed

lemma universal_newlines_last:
  "x \<noteq> [] \<Longrightarrow> last x = nl \<Longrightarrow> universal_newlines x \<noteq> [] \<and> last (universal_newlines x) = nl"
  by (induction x rule: universal_newlines.induct) (auto split: if_splits)

lemma universal_newlines_hd:
  assumes "x \<noteq> []" "hd x = nl \<or> hd x = cr"
  shows "universal_newlines x \<noteq> [] \<and> hd (universal_newlines x) = nl"
proof (cases x)
  case Nil
  with assms show ?thesis by simp
next
  case (Cons c cs)
  with assms show ?thesis by (cases cs) auto
qed

lemma to_disk_append: "to_disk p (a @ b) = to_disk p a @ to_disk p b"
  by (simp add: to_disk_def)

lemma to_disk_plain: "nl \<notin> set x \<Longrightarrow> to_disk p x = x"
  by (induction x) (auto simp: to_disk_def)

lemma to_disk_last:
  assumes "x \<noteq> []" "last x = nl"
  shows "to_disk p x \<noteq> [] \<and> last (to_disk p x) = nl"
proof -
  from assms obtain ys where "x = ys @ [nl]" by (metis append_butlast_last_id)
  then have "to_disk p x = to_disk p ys @ os_linesep p"
    by (simp add: to_disk_def)
  then show ?thesis by (cases p) auto
qed

lemma to_disk_hd:
  assumes "x \<noteq> []" "hd x = nl \<or> hd x = cr"
  shows "to_disk p x \<noteq> [] \<and> (hd (to_disk p x) = nl \<or> hd (to_disk p x) = cr)"
proof (cases x)
  case Nil
  with assms show ?thesis by simp
next
  case (Cons c cs)
  with assms show ?thesis by (cases p) (auto simp: to_disk_def)
qed

lemma read_back_marker:
  assumes version: "v \<noteq> []" "nl \<notin> set v" "cr \<notin> set v"
    and before: "pre = [] \<or> last pre = nl" "re_search_build True (read_back p pre) = None"
    and after: "post = [] \<or> hd post = nl \<or> hd post = cr"
  shows "re_search_build True (read_back p (pre @ ''-- Build: '' @ v @ post)) = Some v"
proof -
  let ?line = "''-- Build: '' @ v"
  have plain: "nl \<notin> set ?line" "cr \<notin> set ?line" using version by auto
  have line: "to_disk p ?line = ?line" using plain(1) by (rule to_disk_plain)
  have "to_disk p (pre @ ?line @ post) = to_disk p pre @ to_disk p ?line @ to_disk p post"
    by (simp only: to_disk_append)
  then have disk: "to_disk p (pre @ ?line @ post) = to_disk p pre @ ?line @ to_disk p post"
    by (simp only: line)
  have pre_end: "to_disk p pre = [] \<or> last (to_disk p pre) = nl"
  proof (cases "pre = []")
    case True
    then show ?thesis by (simp add: to_disk_def)
  next
    case False
    with before(1) show ?thesis using to_disk_last [of pre p] by simp
  qed
  then have s1: "universal_newlines (to_disk p pre @ ?line @ to_disk p post)
                   = read_back p pre @ universal_newlines (?line @ to_disk p post)"
    unfolding read_back_def by (intro universal_newlines_append) auto
  have "last ?line \<noteq> cr" using version(1,3) by (metis last_append last_in_set)
  then have s2: "universal_newlines (?line @ to_disk p post) = ?line @ read_back p post"
    unfolding read_back_def
    using universal_newlines_append [of ?line "to_disk p post"] universal_newlines_plain [OF plain(2)]
    by simp
  have pre': "read_back p pre = [] \<or> last (read_back p pre) = nl"
  proof (cases "pre = []")
    case True
    then show ?thesis by (simp add: read_back_def to_disk_def)
  next
    case False
    with before(1) have "to_disk p pre \<noteq> [] \<and> last (to_disk p pre) = nl"
      using to_disk_last [of pre p] by simp
    then show ?thesis unfolding read_back_def using universal_newlines_last by blast
  qed
  have post': "read_back p post = [] \<or> hd (read_back p post) = nl"
  proof (cases "post = []")
    case True
    then show ?thesis by (simp add: read_back_def to_disk_def)
  next
    case False
    with after have "to_disk p post \<noteq> [] \<and> (hd (to_disk p post) = nl \<or> hd (to_disk p post) = cr)"
      using to_disk_hd [of post p] by blast
    then show ?thesis unfolding read_back_def using universal_newlines_hd by blast
  qed
  have "read_back p (pre @ ?line @ post) = read_back p pre @ ''-- Build: '' @ v @ read_back p post"
    using disk s1 s2 by (simp add: read_back_def)
  moreover have "re_search_build True (read_back p pre @ ''-- Build: '' @ v @ read_back p post) = Some v"
    using version(2,1) post' before(2) pre' by (rule re_search_build_marker)
  ultimately show ?thesis by simp
qed

text \<open>
  C3, as the code has it. Let \<open>v\<close> be a non-empty version string with no line feed, no
  carriage return and no leading or trailing whitespace, and let the template render the
  marker line \<open>-- Build: v\<close> as a whole line, after text \<open>pre\<close> in which, once written
  and read back, no line matches the marker pattern. If writing the output file
  succeeds, \<open>generate_lua\<close> leaves that text on disk (with the platform's line ends),
  and \<open>get_existing_build\<close> on an artifact holding it returns exactly \<open>v\<close>.
\<close>

theorem marker_round_trip:
  assumes version: "v \<noteq> []" "nl \<notin> set v" "cr \<notin> set v" "py_strip v = v"
    and before: "pre = [] \<or> last pre = nl" "re_search_build True (read_back (os w) pre) = None"
    and after: "post = [] \<or> hd post = nl \<or> hd post = cr"
    and rendered: "template w = Template render" "writable w"
      "render (dict_of (sorted_items bonus_to_track)) (JStr v) = pre @ ''-- Build: '' @ v @ post"
  shows "written (snd (generate_lua w bonus_to_track (JStr v) s))
           = Some (to_disk (os w) (pre @ ''-- Build: '' @ v @ post))
       \<and> fst (get_existing_build
                (w\<lparr>artifact := Text (to_disk (os w) (pre @ ''-- Build: '' @ v @ post))\<rparr>) s')
           = Inr (Some v)"
proof -
  have "re_search_build True (read_back (os w) (pre @ ''-- Build: '' @ v @ post)) = Some v"
    using version(1-3) before after by (rule read_back_marker)
  then have "fst (get_existing_build
                (w\<lparr>artifact := Text (to_disk (os w) (pre @ ''-- Build: '' @ v @ post))\<rparr>) s')
           = Inr (Some v)"
    using version(4) by (simp add: get_existing_build_def read_back_def)
  moreover have "written (snd (generate_lua w bonus_to_track (JStr v) s))
           = Some (to_disk (os w) (pre @ ''-- Build: '' @ v @ post))"
    using rendered by (simp add: generate_lua_def print_def)
  ultimately show ?thesis by simp
qed

text \<open>
  The claim as first stated fails for the empty version string (\<open>.+\<close> needs a
  character, so the rendered line is no match); for an artifact in which an earlier line
  already matches (the first match wins); and for a version string with a carriage
  return inside, which reading the file back turns into a line end.
\<close>

theorem marker_round_trip_counterexample:
  "nl \<notin> set ([] :: string) \<and> py_strip [] = []
   \<and> fst (get_existing_build
            (sample_world (Namespace False) (Text (sample_template [] (JStr []))) offline) run0)
       = Inr None
   \<and> fst (get_existing_build
            (sample_world (Namespace False)
               (Text (''-- Build: 9.9'' @ [nl] @ ''-- Build: 1.2.3.45678'' @ [nl])) offline) run0)
       = Inr (Some ''9.9'')
   \<and> nl \<notin> set [CHR ''1'', cr, CHR ''2''] \<and> py_strip [CHR ''1'', cr, CHR ''2''] = [CHR ''1'', cr, CHR ''2'']
   \<and> written (snd (generate_lua (sample_world (Namespace False) Absent offline) []
                     (JStr [CHR ''1'', cr, CHR ''2'']) run0))
       = Some (sample_template [] (JStr [CHR ''1'', cr, CHR ''2'']))
   \<and> fst (get_existing_build
            (sample_world (Namespace False)
               (Text (sample_template [] (JStr [CHR ''1'', cr, CHR ''2'']))) offline) run0)
       = Inr (Some ''1'')"
  by (simp add: get_existing_build_def generate_lua_def sample_world_def sample_template_def
      match_at_def py_strip_def py_isspace_def run0_def print_def to_disk_def dict_of_def
      sorted_items_def)

theorem marker_round_trip_witness:
  "written (snd (generate_lua ((sample_world (Namespace False) Absent offline)\<lparr>os := Windows\<rparr>)
                   [] (JStr ''1.2.3.45678'') run0))
     = Some (''-- Generated file'' @ [cr, nl] @ ''-- Build: 1.2.3.45678'' @ [cr, nl])
   \<and> fst (get_existing_build
            ((sample_world (Namespace False) Absent offline)
               \<lparr>os := Windows,
                artifact := Text (''-- Generated file'' @ [cr, nl] @ ''-- Build: 1.2.3.45678''
                                  @ [cr, nl])\<rparr>) run0)
       = Inr (Some ''1.2.3.45678'')"
proof -
  let ?v = "''1.2.3.45678''"
  let ?pre = "''-- Generated file'' @ [nl]"
  let ?w = "(sample_world (Namespace False) Absent offline)\<lparr>os := Windows\<rparr>"
  have v: "?v \<noteq> []" "nl \<notin> set ?v" "cr \<notin> set ?v" "py_strip ?v = ?v"
    by (simp_all add: py_strip_def py_isspace_def)
  have pre: "?pre = [] \<or> last ?pre = nl" "re_search_build True (read_back (os ?w) ?pre) = None"
    by (simp_all add: match_at_def read_back_def to_disk_def sample_world_def)
  have post: "[nl] = [] \<or> hd [nl] = nl \<or> hd [nl] = cr" by simp
  have t: "template ?w = Template sample_template" "writable ?w"
    by (simp_all add: sample_world_def)
  have r: "sample_template (dict_of (sorted_items [])) (JStr ?v) = ?pre @ ''-- Build: '' @ ?v @ [nl]"
    by (simp add: sample_template_def dict_of_def sorted_items_def)
  have d: "to_disk (os ?w) (?pre @ ''-- Build: '' @ ?v @ [nl])
             = ''-- Generated file'' @ [cr, nl] @ ''-- Build: 1.2.3.45678'' @ [cr, nl]"
    by (simp add: to_disk_def sample_world_def)
  have a: "?w\<lparr>artifact := Text (''-- Generated file'' @ [cr, nl] @ ''-- Build: 1.2.3.45678'' @ [cr, nl])\<rparr>
             = (sample_world (Namespace False) Absent offline)
                 \<lparr>os := Windows,
                  artifact := Text (''-- Generated file'' @ [cr, nl] @ ''-- Build: 1.2.3.45678''
                                    @ [cr, nl])\<rparr>"
    by (simp add: sample_world_def)
  from marker_round_trip [OF v pre post t r, of run0 run0] d a show ?thesis by simp
qed

subsection \<open>A whole run\<close>








lemma should_regenerate_table:
  assumes "fst (get_existing_build w s) = Inr e"
    and "fst (fetch_current_build w (snd (get_existing_build w s))) = Inr c"
  shows "\<exists>reason. fst (should_regenerate w force s)
           = Inr (decision_table force (artifact w \<noteq> Absent) (truthy e) (json_truthy c)
                    (\<not> differs e c), reason)"
  using assms by (auto simp: should_regenerate_def split: prod.splits sum.splits)










text \<open>
  C1. Where \<open>get_existing_build\<close> and \<open>fetch_current_build\<close> return, the decision is
  the table's (\<open>should_regenerate_table\<close>). But \<open>should_regenerate\<close> does not always
  return. With a previous artifact whose bytes do not decode, \<open>read_text\<close> raises
  \<open>UnicodeDecodeError\<close>, which \<open>except (OSError, IOError)\<close> does not catch: rule 3 wants
  the decision to regenerate, the function raises. With a builds listing whose \<open>wow\<close>
  value is the number 5, \<open>len\<close> raises \<open>TypeError\<close>, which the \<open>except\<close> clause of
  \<open>fetch_current_build\<close> does not name: rule 4 wants the decision not to regenerate,
  the function raises.
\<close>

theorem should_regenerate_raises:
  "decision_table False True False False False = True
   \<and> fst (should_regenerate (sample_world (Namespace False) Undecodable offline) False run0)
       = Inl UnicodeDecodeError
   \<and> decision_table False True True False False = False
   \<and> fst (get_existing_build (sample_world (Namespace False) old_artifact misshapen_builds) run0)
       = Inr (Some ''1.0'')
   \<and> fst (should_regenerate (sample_world (Namespace False) old_artifact misshapen_builds) False run0)
       = Inl TypeError"
  by (simp add: should_regenerate_def get_existing_build_def fetch_current_build_def
      latest_version_def requests_get_def raise_for_status_def sample_world_def old_artifact_def
      misshapen_builds_def serving_def builds_response_def dict_get_def match_at_def py_strip_def
      py_isspace_def run0_def Let_def)












end
